theory Spec2Isabelle
  imports Complex_Main "HOL-Library.Multiset"
begin

section \<open>JavaScript numbers\<close>

text \<open>
  A TypeScript \<open>number\<close> is an IEEE double: a finite value, one of the two infinities, or
  NaN. The finite values are embedded in the reals. Only comparisons and the sign of a
  difference are used by the component, and on finite doubles both agree with the exact
  operations on the reals (a rounded difference has the sign of the exact one).
\<close>

datatype jsnum = NaN | NegInf | Fin real | PosInf

fun Number_isFinite :: "jsnum \<Rightarrow> bool" where
  "Number_isFinite (Fin x) = True"
| "Number_isFinite _ = False"

fun Number_isNaN :: "jsnum \<Rightarrow> bool" where
  "Number_isNaN NaN = True"
| "Number_isNaN _ = False"

text \<open>The relational operator \<open>a >= b\<close>: false as soon as one side is NaN.\<close>

fun js_ge :: "jsnum \<Rightarrow> jsnum \<Rightarrow> bool" where
  "js_ge NaN b = False"
| "js_ge a NaN = False"
| "js_ge PosInf b = True"
| "js_ge a NegInf = True"
| "js_ge NegInf b = False"
| "js_ge a PosInf = False"
| "js_ge (Fin x) (Fin y) = (y \<le> x)"

text \<open>The relational operator \<open>a < b\<close>.\<close>

fun js_lt :: "jsnum \<Rightarrow> jsnum \<Rightarrow> bool" where
  "js_lt NaN b = False"
| "js_lt a NaN = False"
| "js_lt PosInf b = False"
| "js_lt a NegInf = False"
| "js_lt NegInf b = True"
| "js_lt a PosInf = True"
| "js_lt (Fin x) (Fin y) = (x < y)"

text \<open>The binary operator \<open>a - b\<close>.\<close>

fun js_sub :: "jsnum \<Rightarrow> jsnum \<Rightarrow> jsnum" where
  "js_sub NaN b = NaN"
| "js_sub a NaN = NaN"
| "js_sub PosInf PosInf = NaN"
| "js_sub NegInf NegInf = NaN"
| "js_sub PosInf b = PosInf"
| "js_sub NegInf b = NegInf"
| "js_sub a PosInf = NegInf"
| "js_sub a NegInf = PosInf"
| "js_sub (Fin x) (Fin y) = Fin (x - y)"

text \<open>\<open>Math.max(a, b)\<close>: NaN if either argument is NaN, the larger one otherwise.\<close>

fun Math_max :: "jsnum \<Rightarrow> jsnum \<Rightarrow> jsnum" where
  "Math_max NaN b = NaN"
| "Math_max a NaN = NaN"
| "Math_max a b = (if js_ge a b then a else b)"

section \<open>JavaScript strings\<close>

text \<open>
  Strings are sequences of code units below 256 (the Latin-1 range). \<open>toUpperCase\<close> maps
  the ASCII letters and the Latin-1 letters with an upper-case form in that range to it,
  and the sharp s (code unit DF) to the two letters SS. The micro sign (B5) and the y with
  diaeresis (FF) have upper-case forms above the range and are left as they are: the model
  speaks about strings without these two. \<open>trim\<close> removes the white space and line
  terminators of ECMAScript that lie in the range.
\<close>

definition lower_letters :: string where
  "lower_letters =
     ''abcdefghijklmnopqrstuvwxyz'' @
     [CHR 0xE0, CHR 0xE1, CHR 0xE2, CHR 0xE3, CHR 0xE4, CHR 0xE5, CHR 0xE6, CHR 0xE7,
      CHR 0xE8, CHR 0xE9, CHR 0xEA, CHR 0xEB, CHR 0xEC, CHR 0xED, CHR 0xEE, CHR 0xEF,
      CHR 0xF0, CHR 0xF1, CHR 0xF2, CHR 0xF3, CHR 0xF4, CHR 0xF5, CHR 0xF6,
      CHR 0xF8, CHR 0xF9, CHR 0xFA, CHR 0xFB, CHR 0xFC, CHR 0xFD, CHR 0xFE]"

definition upper_letters :: string where
  "upper_letters =
     ''ABCDEFGHIJKLMNOPQRSTUVWXYZ'' @
     [CHR 0xC0, CHR 0xC1, CHR 0xC2, CHR 0xC3, CHR 0xC4, CHR 0xC5, CHR 0xC6, CHR 0xC7,
      CHR 0xC8, CHR 0xC9, CHR 0xCA, CHR 0xCB, CHR 0xCC, CHR 0xCD, CHR 0xCE, CHR 0xCF,
      CHR 0xD0, CHR 0xD1, CHR 0xD2, CHR 0xD3, CHR 0xD4, CHR 0xD5, CHR 0xD6,
      CHR 0xD8, CHR 0xD9, CHR 0xDA, CHR 0xDB, CHR 0xDC, CHR 0xDD, CHR 0xDE]"

definition upper_char :: "char \<Rightarrow> char" where
  "upper_char c =
     (case map_of (zip lower_letters upper_letters) c of
        None \<Rightarrow> c
      | Some u \<Rightarrow> u)"

definition upper_chars :: "char \<Rightarrow> string" where
  "upper_chars c = (if c = CHR 0xDF then ''SS'' else [upper_char c])"

definition toUpperCase :: "string \<Rightarrow> string" where
  "toUpperCase s = concat (map upper_chars s)"

definition is_white :: "char \<Rightarrow> bool" where
  "is_white c =
     (c \<in> set [CHR 0x09, CHR 0x0A, CHR 0x0B, CHR 0x0C, CHR 0x0D, CHR 0x20, CHR 0xA0])"

definition trim :: "string \<Rightarrow> string" where
  "trim s = rev (dropWhile is_white (rev (dropWhile is_white s)))"

fun startsWith :: "string \<Rightarrow> string \<Rightarrow> bool" where
  "startsWith s [] = True"
| "startsWith [] (q # qs) = False"
| "startsWith (c # cs) (q # qs) = (c = q \<and> startsWith cs qs)"

text \<open>\<open>s.includes(q)\<close>: \<open>q\<close> occurs in \<open>s\<close> as a contiguous run.\<close>

fun includes_str :: "string \<Rightarrow> string \<Rightarrow> bool" where
  "includes_str [] q = startsWith [] q"
| "includes_str (c # cs) q = (startsWith (c # cs) q \<or> includes_str cs q)"

text \<open>\<open>s.replace(/\/$/, '')\<close>: one slash at the very end of the string is removed.\<close>

definition strip_trailing_slash :: "string \<Rightarrow> string" where
  "strip_trailing_slash s = (if s \<noteq> [] \<and> last s = CHR ''/'' then butlast s else s)"

section \<open>Data model\<close>

record OpportunityLeg =
  exchange :: string
  price :: jsnum
  effectivePrice :: jsnum
  feePercentApplied :: jsnum

record ArbitrageOpportunity =
  symbol :: string
  min_f :: jsnum
  max_f :: jsnum
  diff :: jsnum
  netDiff :: jsnum
  buy :: OpportunityLeg
  sell :: OpportunityLeg
  exchanges :: "(string \<times> jsnum) list"

definition DEFAULT_API_BASE :: string where
  "DEFAULT_API_BASE = ''https://arbitrage-production-e91f.up.railway.app''"

definition MIN_REFRESH_INTERVAL :: jsnum where
  "MIN_REFRESH_INTERVAL = Fin 1000"

text \<open>One GET request handed to the HTTP client: the URL and the query parameters.\<close>

record request =
  url :: string
  params :: "(string \<times> string) list"

text \<open>
  What the component does to the outside, in the order in which it does it: a GET request
  handed to the HTTP client, a call of \<open>setInterval\<close> (with the handle it returned and the
  delay it was given), a call of \<open>clearInterval\<close>.
\<close>

datatype action = HttpGet request | Arm nat jsnum | Cancel nat

text \<open>
  A live interval timer of the runtime: the delay it was armed with, the time at which it
  was armed, and the time at which its next tick is due.
\<close>

record timer =
  delay :: jsnum
  armedAt :: nat
  nextTick :: nat

text \<open>
  The delay in milliseconds the runtime gives a timer: the requested number is converted
  to a signed 32-bit integer (truncated, taken modulo \<open>2^32\<close>; NaN and the infinities
  become 0) and a negative result counts as 0. So a request of \<open>2^31\<close> ms or more, of
  Infinity or of NaN arms a timer that ticks without waiting.
\<close>

definition timer_delay :: "jsnum \<Rightarrow> nat" where
  "timer_delay ms =
     (case ms of
        Fin x \<Rightarrow>
          (let n = (if 0 \<le> x then \<lfloor>x\<rfloor> else - \<lfloor>- x\<rfloor>) mod 4294967296
           in if n < 2147483648 then nat n else 0)
      | _ \<Rightarrow> 0)"

text \<open>
  The component: its signals and the private timer handle, followed by the part of the
  runtime it acts on: the clock read by \<open>new Date()\<close>, the live interval timers by handle,
  the next handle \<open>setInterval\<close> will return, and the actions taken so far.
\<close>

record AppComponent =
  apiBase :: string
  minDiffPercent :: jsnum
  search :: string
  autoRefreshMs :: jsnum
  autoRefreshEnabled :: bool
  opportunities :: "ArbitrageOpportunity list"
  loading :: bool
  error :: "string option"
  lastUpdated :: "nat option"
  refreshTimer :: "nat option"
  clock :: nat
  timers :: "(nat \<times> timer) list"
  nextHandle :: nat
  trace :: "action list"

text \<open>The requests issued so far, in order.\<close>

fun gets :: "action list \<Rightarrow> request list" where
  "gets [] = []"
| "gets (HttpGet r # acts) = r # gets acts"
| "gets (a # acts) = gets acts"

definition requests :: "AppComponent \<Rightarrow> request list" where
  "requests st = gets (trace st)"

section \<open>Filter/sort engine\<close>

text \<open>
  \<open>Array.prototype.sort(cmp)\<close> is stable: an element moves behind another one only when
  the comparator, called as \<open>cmp(x, y)\<close>, returns a number greater than zero. A NaN result
  counts as zero. For a comparator that orders the elements consistently this fixes the
  result, and \<open>sort_js\<close> computes it. When the comparator returns NaN for some pairs of
  three or more elements it is not consistent and the language leaves the order to the
  engine; \<open>sort_js\<close> is then one possible outcome, and nothing below relies on it beyond
  lists of two elements, which every engine leaves in place on a NaN.
\<close>

fun js_positive :: "jsnum \<Rightarrow> bool" where
  "js_positive (Fin x) = (0 < x)"
| "js_positive PosInf = True"
| "js_positive _ = False"

fun sort_insert :: "('a \<Rightarrow> 'a \<Rightarrow> jsnum) \<Rightarrow> 'a \<Rightarrow> 'a list \<Rightarrow> 'a list" where
  "sort_insert cmp x [] = [x]"
| "sort_insert cmp x (y # ys) =
     (if js_positive (cmp x y) then y # sort_insert cmp x ys else x # y # ys)"

fun sort_js :: "('a \<Rightarrow> 'a \<Rightarrow> jsnum) \<Rightarrow> 'a list \<Rightarrow> 'a list" where
  "sort_js cmp [] = []"
| "sort_js cmp (x # xs) = sort_insert cmp x (sort_js cmp xs)"

text \<open>The two filter predicates of \<open>filtered\<close>, for a given query and threshold.\<close>

definition matches_query :: "string \<Rightarrow> ArbitrageOpportunity \<Rightarrow> bool" where
  "matches_query query item =
     (if query \<noteq> [] then includes_str (toUpperCase (symbol item)) query else True)"

definition meets_threshold :: "jsnum \<Rightarrow> ArbitrageOpportunity \<Rightarrow> bool" where
  "meets_threshold threshold item =
     (if Number_isFinite threshold then js_ge (netDiff item) threshold else True)"

definition filtered :: "AppComponent \<Rightarrow> ArbitrageOpportunity list" where
  "filtered st =
     (let query = toUpperCase (trim (search st));
          threshold = minDiffPercent st
      in sort_js (\<lambda>a b. js_sub (netDiff b) (netDiff a))
           (filter (meets_threshold threshold)
             (filter (matches_query query) (opportunities st))))"

section \<open>Refresh\<close>

text \<open>
  What the awaited request ends with: the decoded response, or a thrown value, which is
  either an instance of \<open>Error\<close> carrying a message or anything else.
\<close>

datatype thrown = ErrorInstance string | OtherValue

datatype outcome = Resolved "ArbitrageOpportunity list" | Rejected thrown

text \<open>
  \<open>refresh\<close> is asynchronous. Up to the \<open>await\<close> it runs at once: it raises the loading
  flag, clears the error and hands the request to the HTTP client. \<open>toStr\<close> stands for
  the conversion \<open>String(n)\<close> of the runtime.
\<close>

definition refresh_request :: "(jsnum \<Rightarrow> string) \<Rightarrow> AppComponent \<Rightarrow> request" where
  "refresh_request toStr st =
     (let base = strip_trailing_slash (apiBase st);
          url = base @ ''/api/arbitrage'';
          params = [(''minDiffPercent'', toStr (minDiffPercent st))]
      in \<lparr>url = url, params = params\<rparr>)"

definition refresh_issue :: "(jsnum \<Rightarrow> string) \<Rightarrow> AppComponent \<Rightarrow> AppComponent" where
  "refresh_issue toStr st =
     (let st1 = st\<lparr>loading := True\<rparr>;
          st2 = st1\<lparr>error := None\<rparr>
      in st2\<lparr>trace := trace st2 @ [HttpGet (refresh_request toStr st2)]\<rparr>)"

text \<open>
  The rest of \<open>refresh\<close> runs when the request settles: the \<open>try\<close> body continues on a
  response, the \<open>catch\<close> block runs on a thrown value, and \<open>finally\<close> runs in both cases.
\<close>

definition error_message :: "thrown \<Rightarrow> string" where
  "error_message e = (case e of ErrorInstance m \<Rightarrow> m | OtherValue \<Rightarrow> ''Failed to fetch data'')"

definition refresh_settle :: "outcome \<Rightarrow> AppComponent \<Rightarrow> AppComponent" where
  "refresh_settle out st =
     (let st1 = (case out of
                   Resolved data \<Rightarrow> st\<lparr>opportunities := data, lastUpdated := Some (clock st)\<rparr>
                 | Rejected e \<Rightarrow> st\<lparr>error := Some (error_message e)\<rparr>)
      in st1\<lparr>loading := False\<rparr>)"

text \<open>One whole refresh whose request settles before anything else happens.\<close>

definition refresh :: "(jsnum \<Rightarrow> string) \<Rightarrow> outcome \<Rightarrow> AppComponent \<Rightarrow> AppComponent" where
  "refresh toStr out st = refresh_settle out (refresh_issue toStr st)"

section \<open>Parameter updates\<close>

text \<open>
  The argument of the two update methods is a number or a string; \<open>toNum\<close> stands for
  the conversion \<open>Number(s)\<close> of a string by the runtime.
\<close>

datatype input = NumberValue jsnum | StringValue string

definition to_number :: "(string \<Rightarrow> jsnum) \<Rightarrow> input \<Rightarrow> jsnum" where
  "to_number toNum v = (case v of NumberValue n \<Rightarrow> n | StringValue s \<Rightarrow> toNum s)"

definition toggleAutoRefresh :: "AppComponent \<Rightarrow> AppComponent" where
  "toggleAutoRefresh st = st\<lparr>autoRefreshEnabled := \<not> autoRefreshEnabled st\<rparr>"

definition updateMinDiff :: "(string \<Rightarrow> jsnum) \<Rightarrow> input \<Rightarrow> AppComponent \<Rightarrow> AppComponent" where
  "updateMinDiff toNum v st =
     (let parsed = to_number toNum v
      in st\<lparr>minDiffPercent := (if Number_isNaN parsed then Fin 0 else parsed)\<rparr>)"

definition updateAutoInterval :: "(string \<Rightarrow> jsnum) \<Rightarrow> input \<Rightarrow> AppComponent \<Rightarrow> AppComponent" where
  "updateAutoInterval toNum v st =
     (let numeric = to_number toNum v;
          sanitized = Math_max MIN_REFRESH_INTERVAL
                        (if Number_isNaN numeric then MIN_REFRESH_INTERVAL else numeric)
      in st\<lparr>autoRefreshMs := sanitized\<rparr>)"

definition clearSearch :: "AppComponent \<Rightarrow> AppComponent" where
  "clearSearch st = st\<lparr>search := []\<rparr>"

section \<open>Refresh scheduler\<close>

text \<open>
  \<open>setInterval\<close> arms a new timer under a fresh handle and returns the handle; the first
  tick is due one delay of the runtime after the call. \<open>clearInterval\<close> removes the timer
  with the given handle, if there is one.
\<close>

definition setInterval :: "jsnum \<Rightarrow> AppComponent \<Rightarrow> nat \<times> AppComponent" where
  "setInterval ms st =
     (nextHandle st,
      st\<lparr>timers := timers st @
           [(nextHandle st,
             \<lparr>delay = ms, armedAt = clock st, nextTick = clock st + timer_delay ms\<rparr>)],
         nextHandle := Suc (nextHandle st),
         trace := trace st @ [Arm (nextHandle st) ms]\<rparr>)"

definition clearInterval :: "nat \<Rightarrow> AppComponent \<Rightarrow> AppComponent" where
  "clearInterval h st =
     st\<lparr>timers := filter (\<lambda>(k, t). k \<noteq> h) (timers st), trace := trace st @ [Cancel h]\<rparr>"

text \<open>
  A tick of the timer \<open>h\<close>: nothing happens unless the timer is live and its tick is due;
  then the next tick is put one delay later and the callback calls \<open>refresh\<close>.
\<close>

definition rearm :: "nat \<Rightarrow> nat \<Rightarrow> (nat \<times> timer) list \<Rightarrow> (nat \<times> timer) list" where
  "rearm h now ts =
     map (\<lambda>(k, t). if k = h then (k, t\<lparr>nextTick := now + timer_delay (delay t)\<rparr>) else (k, t)) ts"

text \<open>The test \<open>if (this.refreshTimer)\<close>: the handle is there and is not the number 0.\<close>

definition stopAutoRefresh :: "AppComponent \<Rightarrow> AppComponent" where
  "stopAutoRefresh st =
     (case refreshTimer st of
        None \<Rightarrow> st
      | Some h \<Rightarrow> if h \<noteq> 0 then (clearInterval h st)\<lparr>refreshTimer := None\<rparr> else st)"

text \<open>
  \<open>startAutoRefresh\<close> is called by the effect only, so its call of \<open>refresh\<close> runs inside
  the effect. The effect is registered without \<open>allowSignalWrites\<close>, and whether it may
  write signals depends on the version of the framework, which the sources do not fix:
  Angular 19 and later let it (\<open>writes\<close> is true); Angular 17 and 18 refuse the first
  write of \<open>refresh\<close>, \<open>loading.set(true)\<close>, with the error NG0600. \<open>refresh\<close> being
  asynchronous, the error rejects its promise, nothing has changed and no request is
  issued, and \<open>startAutoRefresh\<close> goes on.
\<close>

definition refresh_in_effect :: "bool \<Rightarrow> (jsnum \<Rightarrow> string) \<Rightarrow> AppComponent \<Rightarrow> AppComponent" where
  "refresh_in_effect writes toStr st = (if writes then refresh_issue toStr st else st)"

definition startAutoRefresh ::
    "bool \<Rightarrow> (jsnum \<Rightarrow> string) \<Rightarrow> jsnum \<Rightarrow> AppComponent \<Rightarrow> AppComponent" where
  "startAutoRefresh writes toStr intervalMs st =
     (let st1 = stopAutoRefresh st;
          ms = Math_max MIN_REFRESH_INTERVAL intervalMs;
          st2 = refresh_in_effect writes toStr st1;
          (h, st3) = setInterval ms st2
      in st3\<lparr>refreshTimer := Some h\<rparr>)"

text \<open>The body of the effect registered by the constructor.\<close>

definition auto_refresh_effect :: "bool \<Rightarrow> (jsnum \<Rightarrow> string) \<Rightarrow> AppComponent \<Rightarrow> AppComponent" where
  "auto_refresh_effect writes toStr st =
     (let enabled = autoRefreshEnabled st;
          interval = autoRefreshMs st
      in if enabled then startAutoRefresh writes toStr interval st else stopAutoRefresh st)"

text \<open>The callback registered with \<open>destroyRef.onDestroy\<close>.\<close>

definition onDestroy :: "AppComponent \<Rightarrow> AppComponent" where
  "onDestroy st = stopAutoRefresh st"

text \<open>
  The component as the constructor leaves it: the signals at their initial values, no
  timer, and the first refresh issued.
\<close>

definition fresh_component :: AppComponent where
  "fresh_component =
     \<lparr>apiBase = DEFAULT_API_BASE, minDiffPercent = Fin 0.5, search = [],
      autoRefreshMs = Fin 15000, autoRefreshEnabled = False, opportunities = [],
      loading = False, error = None, lastUpdated = None, refreshTimer = None,
      clock = 0, timers = [], nextHandle = 1, trace = []\<rparr>"

definition constructor_init :: "(jsnum \<Rightarrow> string) \<Rightarrow> AppComponent" where
  "constructor_init toStr = refresh_issue toStr fresh_component"

text \<open>
  Everything that can happen to the component afterwards: a call of one of its methods, a
  write to one of the signals bound to the form, a run of the effect (under a framework
  that lets the effect write signals, or one that does not), a tick of a timer (which
  calls \<open>refresh\<close> if the timer is live and the tick is due), a pending request settling,
  the destruction of the component, and time passing.
\<close>

datatype event =
    ToggleAutoRefresh
  | UpdateMinDiff input
  | UpdateAutoInterval input
  | SetSearch string
  | ClearSearch
  | SetApiBase string
  | ManualRefresh
  | RunEffect bool
  | Tick nat
  | Settle outcome
  | Destroy
  | Advance nat

fun step :: "(string \<Rightarrow> jsnum) \<Rightarrow> (jsnum \<Rightarrow> string) \<Rightarrow> event \<Rightarrow> AppComponent \<Rightarrow> AppComponent" where
  "step toNum toStr ToggleAutoRefresh st = toggleAutoRefresh st"
| "step toNum toStr (UpdateMinDiff v) st = updateMinDiff toNum v st"
| "step toNum toStr (UpdateAutoInterval v) st = updateAutoInterval toNum v st"
| "step toNum toStr (SetSearch s) st = st\<lparr>search := s\<rparr>"
| "step toNum toStr ClearSearch st = clearSearch st"
| "step toNum toStr (SetApiBase s) st = st\<lparr>apiBase := s\<rparr>"
| "step toNum toStr ManualRefresh st = refresh_issue toStr st"
| "step toNum toStr (RunEffect writes) st = auto_refresh_effect writes toStr st"
| "step toNum toStr (Tick h) st =
     (case map_of (timers st) h of
        None \<Rightarrow> st
      | Some t \<Rightarrow>
          if nextTick t \<le> clock st
          then refresh_issue toStr (st\<lparr>timers := rearm h (clock st) (timers st)\<rparr>)
          else st)"
| "step toNum toStr (Settle out) st = refresh_settle out st"
| "step toNum toStr Destroy st = onDestroy st"
| "step toNum toStr (Advance d) st = st\<lparr>clock := clock st + d\<rparr>"

fun run :: "(string \<Rightarrow> jsnum) \<Rightarrow> (jsnum \<Rightarrow> string) \<Rightarrow> event list \<Rightarrow> AppComponent \<Rightarrow> AppComponent" where
  "run toNum toStr [] st = st"
| "run toNum toStr (e # es) st = run toNum toStr es (step toNum toStr e st)"

section \<open>Properties as the specification words them\<close>

text \<open>A symbol contains a text case-insensitively: the upper-cased forms contain each other.\<close>

definition contains_ci :: "string \<Rightarrow> string \<Rightarrow> bool" where
  "contains_ci s q = includes_str (toUpperCase s) (toUpperCase q)"

text \<open>A view is in descending order of \<open>netDiff\<close>: no record is followed by a larger one.\<close>

definition descending :: "ArbitrageOpportunity list \<Rightarrow> bool" where
  "descending xs = sorted_wrt (\<lambda>a b. js_ge (netDiff a) (netDiff b)) xs"

text \<open>An event that records a fetch failure.\<close>

fun is_failure :: "event \<Rightarrow> bool" where
  "is_failure (Settle (Rejected e)) = True"
| "is_failure _ = False"



text \<open>
  The scheduler owns the live timers: the handle is absent and no timer is live, or the
  handle names the one live timer.
\<close>

definition single_timer :: "AppComponent \<Rightarrow> bool" where
  "single_timer st =
     (nextHandle st \<noteq> 0 \<and>
      (case refreshTimer st of
         None \<Rightarrow> timers st = []
       | Some h \<Rightarrow> h \<noteq> 0 \<and> map fst (timers st) = [h]))"

section \<open>Worked examples\<close>

definition sample_leg :: OpportunityLeg where
  "sample_leg =
     \<lparr>exchange = ''binance'', price = Fin 1, effectivePrice = Fin 1, feePercentApplied = Fin 0\<rparr>"

definition sample_record :: "string \<Rightarrow> jsnum \<Rightarrow> ArbitrageOpportunity" where
  "sample_record s n =
     \<lparr>symbol = s, min_f = Fin 1, max_f = Fin 2, diff = Fin 1, netDiff = n,
      buy = sample_leg, sell = sample_leg, exchanges = []\<rparr>"

text \<open>The raw record set of the specification's examples, with the initial parameters.\<close>

definition sample_state :: AppComponent where
  "sample_state =
     fresh_component\<lparr>opportunities :=
       [sample_record ''BTC'' (Fin 1.2), sample_record ''ETH'' (Fin 1.2),
        sample_record ''LTC'' (Fin 0.3)]\<rparr>"

text \<open>
  The two conversions of the runtime, right on the values the examples apply them to (the
  threshold 0.5 and the non-finite numbers; the texts 2500, 250 and Infinity, and texts
  that are no number) and a placeholder elsewhere.
\<close>

definition sample_toStr :: "jsnum \<Rightarrow> string" where
  "sample_toStr n =
     (case n of NaN \<Rightarrow> ''NaN'' | NegInf \<Rightarrow> ''-Infinity'' | PosInf \<Rightarrow> ''Infinity''
      | Fin x \<Rightarrow> if x = 1 / 2 then ''0.5'' else ''0'')"

definition sample_toNum :: "string \<Rightarrow> jsnum" where
  "sample_toNum s =
     (if s = ''2500'' then Fin 2500 else if s = ''250'' then Fin 250
      else if s = ''Infinity'' then PosInf else NaN)"

text \<open>The same state with a search text that ends in a blank.\<close>

definition padded_state :: AppComponent where
  "padded_state = sample_state\<lparr>search := ''et ''\<rparr>"

text \<open>Two records, the first with a NaN \<open>netDiff\<close>, and no finite threshold.\<close>

definition nan_state :: AppComponent where
  "nan_state =
     sample_state\<lparr>minDiffPercent := PosInf,
       opportunities := [sample_record ''AAA'' NaN, sample_record ''BBB'' (Fin 1)]\<rparr>"

text \<open>A state with no finite threshold and an API base that ends in a slash.\<close>

definition unbounded_state :: AppComponent where
  "unbounded_state = sample_state\<lparr>minDiffPercent := PosInf, apiBase := ''http://localhost:3000/''\<rparr>"

text \<open>
  Auto-refresh is switched on, and 700 ms later the interval is changed to 2500 ms: the
  effect runs after each change.
\<close>

definition sample_events :: "event list" where
  "sample_events =
     [ToggleAutoRefresh, RunEffect True, Advance 700,
      UpdateAutoInterval (StringValue ''2500''), RunEffect True]"

definition running_state :: AppComponent where
  "running_state = run sample_toNum sample_toStr sample_events (constructor_init sample_toStr)"

text \<open>Two records, the first with a NaN \<open>netDiff\<close>, under the initial threshold of 0.5.\<close>

definition nan_record_state :: AppComponent where
  "nan_record_state =
     sample_state\<lparr>opportunities := [sample_record ''AAA'' NaN, sample_record ''BBB'' (Fin 1)]\<rparr>"




text \<open>A second refresh starts while the first is pending, and fails.\<close>

definition overlapping_events :: "event list" where
  "overlapping_events = [ManualRefresh, Settle (Rejected OtherValue)]"

text \<open>The state after a refresh that failed.\<close>

definition stale_state :: AppComponent where
  "stale_state = refresh sample_toStr (Rejected OtherValue) sample_state"

section \<open>Facts about the helpers\<close>

lemmas sample_defs = sample_state_def fresh_component_def sample_record_def sample_leg_def
  filtered_def meets_threshold_def matches_query_def toUpperCase_def trim_def upper_char_def
  upper_chars_def lower_letters_def upper_letters_def is_white_def Let_def DEFAULT_API_BASE_def

lemma mset_sort_insert: "mset (sort_insert cmp x ys) = add_mset x (mset ys)"
  by (induction ys) auto

lemma mset_sort_js: "mset (sort_js cmp xs) = mset xs"
  by (induction xs) (auto simp: mset_sort_insert)

lemma set_sort_js: "set (sort_js cmp xs) = set xs"
  using mset_sort_js [of cmp xs] by (metis set_mset_mset)

lemma mset_filtered:
  "mset (filtered st) =
     mset (filter (meets_threshold (minDiffPercent st))
            (filter (matches_query (toUpperCase (trim (search st)))) (opportunities st)))"
  by (simp add: filtered_def Let_def mset_sort_js)

lemma set_filtered:
  "set (filtered st) =
     {r \<in> set (opportunities st).
        matches_query (toUpperCase (trim (search st))) r \<and> meets_threshold (minDiffPercent st) r}"
  by (auto simp: filtered_def Let_def set_sort_js)

section \<open>The threshold filter\<close>

lemma js_below_or_NaN:
  "Number_isFinite t \<Longrightarrow> \<not> js_ge a t \<Longrightarrow> js_lt a t \<or> Number_isNaN a"
  by (cases a; cases t) auto

text \<open>
  C1 as stated fails on its middle part: under the finite threshold 0.5 a record whose
  \<open>netDiff\<close> is NaN passes the search filter and is excluded from the view, and its
  \<open>netDiff\<close> is not below the threshold, since every comparison with NaN is false.
\<close>

theorem filtered_threshold_counterexample:
  "Number_isFinite (minDiffPercent nan_record_state) \<and>
   sample_record ''AAA'' NaN \<in> set (opportunities nan_record_state) \<and>
   matches_query (toUpperCase (trim (search nan_record_state))) (sample_record ''AAA'' NaN) \<and>
   sample_record ''AAA'' NaN \<notin> set (filtered nan_record_state) \<and>
   \<not> js_lt (netDiff (sample_record ''AAA'' NaN)) (minDiffPercent nan_record_state)"
  by (simp add: nan_record_state_def sample_defs)

text \<open>
  C1, amended. With a finite \<open>minDiffPercent\<close>, every record of the derived view satisfies
  \<open>netDiff >= minDiffPercent\<close>, and a record of the raw set that passes the search filter
  and is missing from the view fails that test: its \<open>netDiff\<close> is below the threshold or
  is NaN. With a non-finite \<open>minDiffPercent\<close> the view holds exactly the records that pass
  the search filter, each as often as the raw set holds it: the threshold excludes nothing.
\<close>

theorem filtered_threshold:
  "(Number_isFinite (minDiffPercent st) \<longrightarrow>
      (\<forall>r\<in>set (filtered st). js_ge (netDiff r) (minDiffPercent st)) \<and>
      (\<forall>r\<in>set (opportunities st).
          matches_query (toUpperCase (trim (search st))) r \<and> r \<notin> set (filtered st) \<longrightarrow>
          \<not> js_ge (netDiff r) (minDiffPercent st) \<and>
          (js_lt (netDiff r) (minDiffPercent st) \<or> Number_isNaN (netDiff r)))) \<and>
   (\<not> Number_isFinite (minDiffPercent st) \<longrightarrow>
      mset (filtered st) =
        mset (filter (matches_query (toUpperCase (trim (search st)))) (opportunities st)))"
proof (intro conjI impI)
  assume fin: "Number_isFinite (minDiffPercent st)"
  show "\<forall>r\<in>set (filtered st). js_ge (netDiff r) (minDiffPercent st)"
    using fin by (simp add: set_filtered meets_threshold_def)
  show "\<forall>r\<in>set (opportunities st).
          matches_query (toUpperCase (trim (search st))) r \<and> r \<notin> set (filtered st) \<longrightarrow>
          \<not> js_ge (netDiff r) (minDiffPercent st) \<and>
          (js_lt (netDiff r) (minDiffPercent st) \<or> Number_isNaN (netDiff r))"
  proof (intro ballI impI)
    fix r
    assume "r \<in> set (opportunities st)"
      and "matches_query (toUpperCase (trim (search st))) r \<and> r \<notin> set (filtered st)"
    then have "\<not> js_ge (netDiff r) (minDiffPercent st)"
      using fin by (simp add: set_filtered meets_threshold_def)
    then show "\<not> js_ge (netDiff r) (minDiffPercent st) \<and>
          (js_lt (netDiff r) (minDiffPercent st) \<or> Number_isNaN (netDiff r))"
      using fin by (simp add: js_below_or_NaN)
  qed
next
  assume "\<not> Number_isFinite (minDiffPercent st)"
  then show "mset (filtered st) =
        mset (filter (matches_query (toUpperCase (trim (search st)))) (opportunities st))"
    by (simp add: mset_filtered meets_threshold_def)
qed

theorem filtered_threshold_witness:
  "Number_isFinite (minDiffPercent sample_state) \<and>
   sample_record ''BTC'' (Fin 1.2) \<in> set (filtered sample_state) \<and>
   js_ge (netDiff (sample_record ''BTC'' (Fin 1.2))) (minDiffPercent sample_state) \<and>
   sample_record ''LTC'' (Fin 0.3) \<in> set (opportunities sample_state) \<and>
   matches_query (toUpperCase (trim (search sample_state))) (sample_record ''LTC'' (Fin 0.3)) \<and>
   sample_record ''LTC'' (Fin 0.3) \<notin> set (filtered sample_state) \<and>
   \<not> js_ge (netDiff (sample_record ''LTC'' (Fin 0.3))) (minDiffPercent sample_state) \<and>
   js_lt (netDiff (sample_record ''LTC'' (Fin 0.3))) (minDiffPercent sample_state) \<and>
   \<not> Number_isFinite (minDiffPercent (sample_state\<lparr>minDiffPercent := PosInf\<rparr>)) \<and>
   mset (filtered (sample_state\<lparr>minDiffPercent := PosInf\<rparr>)) =
     mset (opportunities sample_state)"
proof -
  have fin: "Number_isFinite (minDiffPercent sample_state)"
    by (simp add: sample_defs)
  have btc: "sample_record ''BTC'' (Fin 1.2) \<in> set (filtered sample_state)"
    by (simp add: sample_defs)
  have ltc_in: "sample_record ''LTC'' (Fin 0.3) \<in> set (opportunities sample_state)"
    by (simp add: sample_defs)
  have ltc_q:
    "matches_query (toUpperCase (trim (search sample_state))) (sample_record ''LTC'' (Fin 0.3))"
    by (simp add: sample_defs)
  have ltc_out: "sample_record ''LTC'' (Fin 0.3) \<notin> set (filtered sample_state)"
    by (simp add: sample_defs)
  have ltc_num: "\<not> Number_isNaN (netDiff (sample_record ''LTC'' (Fin 0.3)))"
    by (simp add: sample_defs)
  have inf: "\<not> Number_isFinite (minDiffPercent (sample_state\<lparr>minDiffPercent := PosInf\<rparr>))"
    by simp
  have q:
    "filter (matches_query (toUpperCase (trim (search (sample_state\<lparr>minDiffPercent := PosInf\<rparr>)))))
       (opportunities (sample_state\<lparr>minDiffPercent := PosInf\<rparr>)) = opportunities sample_state"
    by (simp add: sample_defs)
  from filtered_threshold [of sample_state] fin btc ltc_in ltc_q ltc_out ltc_num
  have a: "js_ge (netDiff (sample_record ''BTC'' (Fin 1.2))) (minDiffPercent sample_state)"
    and b: "\<not> js_ge (netDiff (sample_record ''LTC'' (Fin 0.3))) (minDiffPercent sample_state)"
    and b': "js_lt (netDiff (sample_record ''LTC'' (Fin 0.3))) (minDiffPercent sample_state)"
    by blast+
  from filtered_threshold [of "sample_state\<lparr>minDiffPercent := PosInf\<rparr>"] inf q
  have c: "mset (filtered (sample_state\<lparr>minDiffPercent := PosInf\<rparr>)) =
             mset (opportunities sample_state)"
    by (simp del: mset_filter)
  show ?thesis using fin btc ltc_in ltc_q ltc_out inf a b b' c by blast
qed

lemma toUpperCase_Nil_iff: "toUpperCase s = [] \<longleftrightarrow> s = []"
  by (cases s) (simp_all add: toUpperCase_def upper_chars_def)

lemma trim_Nil: "trim [] = []"
  by (simp add: trim_def)

section \<open>The search filter\<close>

text \<open>
  C2 as stated fails: the search text is trimmed before it is used, so with the search text
  \<open>et\<close> followed by a blank the view holds ETH, whose symbol does not contain that text.
\<close>

theorem filtered_search_counterexample:
  "search padded_state \<noteq> [] \<and>
   sample_record ''ETH'' (Fin 1.2) \<in> set (filtered padded_state) \<and>
   \<not> contains_ci (symbol (sample_record ''ETH'' (Fin 1.2))) (search padded_state)"
  by (simp add: padded_state_def contains_ci_def sample_defs)

text \<open>
  C2, amended. When the trimmed search text is non-empty, the view holds only records whose
  symbol case-insensitively contains the trimmed search text, and a record that meets the
  threshold and is missing from the view does not contain it. When the search text is
  empty, or empty after trimming, the view holds exactly the records that meet the
  threshold: the search excludes nothing.
\<close>

theorem filtered_search:
  "(trim (search st) \<noteq> [] \<longrightarrow>
      (\<forall>r\<in>set (filtered st). contains_ci (symbol r) (trim (search st))) \<and>
      (\<forall>r\<in>set (opportunities st).
          meets_threshold (minDiffPercent st) r \<and> r \<notin> set (filtered st) \<longrightarrow>
          \<not> contains_ci (symbol r) (trim (search st)))) \<and>
   (trim (search st) = [] \<longrightarrow>
      mset (filtered st) = mset (filter (meets_threshold (minDiffPercent st)) (opportunities st))) \<and>
   (search st = [] \<longrightarrow>
      mset (filtered st) = mset (filter (meets_threshold (minDiffPercent st)) (opportunities st)))"
proof -
  have empty: "mset (filtered st) =
      mset (filter (meets_threshold (minDiffPercent st)) (opportunities st))"
    if "trim (search st) = []"
    using that by (simp add: mset_filtered matches_query_def toUpperCase_Nil_iff)
  have nonempty: "matches_query (toUpperCase (trim (search st))) r =
      contains_ci (symbol r) (trim (search st))" if "trim (search st) \<noteq> []" for r
    using that by (simp add: matches_query_def contains_ci_def toUpperCase_Nil_iff)
  show ?thesis
  proof (intro conjI impI)
    assume ne: "trim (search st) \<noteq> []"
    show "\<forall>r\<in>set (filtered st). contains_ci (symbol r) (trim (search st))"
      using nonempty [OF ne] by (simp add: set_filtered)
    show "\<forall>r\<in>set (opportunities st).
          meets_threshold (minDiffPercent st) r \<and> r \<notin> set (filtered st) \<longrightarrow>
          \<not> contains_ci (symbol r) (trim (search st))"
      using nonempty [OF ne] by (auto simp: set_filtered)
  next
    assume "trim (search st) = []"
    then show "mset (filtered st) =
      mset (filter (meets_threshold (minDiffPercent st)) (opportunities st))"
      by (rule empty)
  next
    assume "search st = []"
    then have "trim (search st) = []" by (simp add: trim_Nil)
    then show "mset (filtered st) =
      mset (filter (meets_threshold (minDiffPercent st)) (opportunities st))"
      by (rule empty)
  qed
qed

theorem filtered_search_witness:
  "trim (search padded_state) \<noteq> [] \<and>
   sample_record ''ETH'' (Fin 1.2) \<in> set (filtered padded_state) \<and>
   contains_ci (symbol (sample_record ''ETH'' (Fin 1.2))) (trim (search padded_state)) \<and>
   sample_record ''BTC'' (Fin 1.2) \<in> set (opportunities padded_state) \<and>
   meets_threshold (minDiffPercent padded_state) (sample_record ''BTC'' (Fin 1.2)) \<and>
   sample_record ''BTC'' (Fin 1.2) \<notin> set (filtered padded_state) \<and>
   \<not> contains_ci (symbol (sample_record ''BTC'' (Fin 1.2))) (trim (search padded_state)) \<and>
   trim (search (sample_state\<lparr>search := ''  ''\<rparr>)) = [] \<and>
   mset (filtered (sample_state\<lparr>search := ''  ''\<rparr>)) =
     mset [sample_record ''BTC'' (Fin 1.2), sample_record ''ETH'' (Fin 1.2)] \<and>
   search sample_state = [] \<and>
   mset (filtered sample_state) =
     mset [sample_record ''BTC'' (Fin 1.2), sample_record ''ETH'' (Fin 1.2)]"
proof -
  have ne: "trim (search padded_state) \<noteq> []"
    by (simp add: padded_state_def sample_defs)
  have eth: "sample_record ''ETH'' (Fin 1.2) \<in> set (filtered padded_state)"
    by (simp add: padded_state_def sample_defs)
  have btc_in: "sample_record ''BTC'' (Fin 1.2) \<in> set (opportunities padded_state)"
    by (simp add: padded_state_def sample_defs)
  have btc_t: "meets_threshold (minDiffPercent padded_state) (sample_record ''BTC'' (Fin 1.2))"
    by (simp add: padded_state_def sample_defs)
  have btc_out: "sample_record ''BTC'' (Fin 1.2) \<notin> set (filtered padded_state)"
    by (simp add: padded_state_def sample_defs)
  have blank: "trim (search (sample_state\<lparr>search := ''  ''\<rparr>)) = []"
    by (simp add: sample_defs)
  have none: "search sample_state = []"
    by (simp add: sample_defs)
  have kept: "filter (meets_threshold (minDiffPercent sample_state)) (opportunities sample_state) =
      [sample_record ''BTC'' (Fin 1.2), sample_record ''ETH'' (Fin 1.2)]"
    by (simp add: sample_defs)
  from filtered_search [of padded_state] ne eth btc_in btc_t btc_out
  have a: "contains_ci (symbol (sample_record ''ETH'' (Fin 1.2))) (trim (search padded_state))"
    and b: "\<not> contains_ci (symbol (sample_record ''BTC'' (Fin 1.2))) (trim (search padded_state))"
    by blast+
  from filtered_search [of "sample_state\<lparr>search := ''  ''\<rparr>"] blank kept
  have c: "mset (filtered (sample_state\<lparr>search := ''  ''\<rparr>)) =
     mset [sample_record ''BTC'' (Fin 1.2), sample_record ''ETH'' (Fin 1.2)]"
    by (simp del: mset_filter)
  from filtered_search [of sample_state] none kept
  have d: "mset (filtered sample_state) =
     mset [sample_record ''BTC'' (Fin 1.2), sample_record ''ETH'' (Fin 1.2)]"
    by (simp del: mset_filter)
  show ?thesis using ne eth btc_in btc_t btc_out blank none a b c d by blast
qed

section \<open>The order of the view\<close>

lemma js_positive_sub: "js_positive (js_sub b a) = js_lt a b"
  by (cases a; cases b) auto

lemma js_ge_total: "a \<noteq> NaN \<Longrightarrow> b \<noteq> NaN \<Longrightarrow> js_ge a b \<or> js_lt a b"
  by (cases a; cases b) auto

lemma js_lt_ge: "js_lt a b \<Longrightarrow> js_ge b a"
  by (cases a; cases b) auto

lemma js_lt_neq: "js_lt a b \<Longrightarrow> a \<noteq> b"
  by (cases a; cases b) auto

lemma js_ge_trans: "js_ge a b \<Longrightarrow> js_ge b c \<Longrightarrow> js_ge a c"
  by (cases a; cases b; cases c) auto

lemma set_sort_insert: "set (sort_insert cmp x ys) = insert x (set ys)"
  using mset_sort_insert [of cmp x ys] by (metis set_mset_add_mset_insert set_mset_mset)

lemma descending_insert:
  "descending ys \<Longrightarrow> netDiff x \<noteq> NaN \<Longrightarrow> \<forall>y\<in>set ys. netDiff y \<noteq> NaN \<Longrightarrow>
   descending (sort_insert (\<lambda>a b. js_sub (netDiff b) (netDiff a)) x ys)"
proof (induction ys)
  case Nil
  then show ?case by (simp add: descending_def)
next
  case (Cons y ys)
  show ?case
  proof (cases "js_lt (netDiff x) (netDiff y)")
    case True
    have rest: "descending (sort_insert (\<lambda>a b. js_sub (netDiff b) (netDiff a)) x ys)"
      using Cons by (simp add: descending_def)
    have "js_ge (netDiff y) (netDiff z)"
      if "z \<in> set (sort_insert (\<lambda>a b. js_sub (netDiff b) (netDiff a)) x ys)" for z
      using that True Cons.prems(1) by (auto simp: set_sort_insert descending_def js_lt_ge)
    then show ?thesis
      using True rest by (simp add: descending_def js_positive_sub)
  next
    case False
    then have ge: "js_ge (netDiff x) (netDiff y)"
      using js_ge_total [of "netDiff x" "netDiff y"] Cons.prems by auto
    have "\<forall>z\<in>set ys. js_ge (netDiff x) (netDiff z)"
      using ge Cons.prems(1) by (auto simp: descending_def intro: js_ge_trans)
    then show ?thesis
      using False ge Cons.prems(1) by (simp add: descending_def js_positive_sub)
  qed
qed

lemma descending_sort_js:
  "\<forall>y\<in>set xs. netDiff y \<noteq> NaN \<Longrightarrow>
   descending (sort_js (\<lambda>a b. js_sub (netDiff b) (netDiff a)) xs)"
proof (induction xs)
  case Nil
  then show ?case by (simp add: descending_def)
next
  case (Cons x xs)
  then show ?case by (simp add: descending_insert set_sort_js)
qed

lemma filter_sort_insert:
  "filter (\<lambda>r. netDiff r = k) (sort_insert (\<lambda>a b. js_sub (netDiff b) (netDiff a)) x ys) =
     (if netDiff x = k then x # filter (\<lambda>r. netDiff r = k) ys
      else filter (\<lambda>r. netDiff r = k) ys)"
  by (induction ys) (auto simp: js_positive_sub dest: js_lt_neq)

lemma stable_sort_js:
  "filter (\<lambda>r. netDiff r = k) (sort_js (\<lambda>a b. js_sub (netDiff b) (netDiff a)) xs) =
     filter (\<lambda>r. netDiff r = k) xs"
  by (induction xs) (simp_all add: filter_sort_insert)

lemma filtered_no_NaN:
  "Number_isFinite (minDiffPercent st) \<Longrightarrow> \<forall>r\<in>set (filtered st). netDiff r \<noteq> NaN"
  by (auto simp: set_filtered meets_threshold_def)

text \<open>
  C3 as stated fails on a record whose \<open>netDiff\<close> is NaN: with no finite threshold such a
  record reaches the sort, the comparator returns NaN for every pair it is in, and the view
  is in descending order neither as it stands nor reversed.
\<close>

theorem filtered_order_counterexample:
  "\<not> descending (filtered nan_state) \<and> \<not> descending (rev (filtered nan_state))"
  by (simp add: nan_state_def descending_def sample_defs)

text \<open>
  C3, amended. When no record of the view has a NaN \<open>netDiff\<close> (as is the case whenever the
  threshold is finite), the view is in descending order of \<open>netDiff\<close>, ties allowed; and
  the records of the view with a given \<open>netDiff\<close> are the records of the raw set with that
  \<open>netDiff\<close> that pass the two filters, in the order of the raw set.
\<close>

theorem filtered_order:
  assumes "\<forall>r\<in>set (filtered st). netDiff r \<noteq> NaN"
  shows "descending (filtered st) \<and>
         filter (\<lambda>r. netDiff r = k) (filtered st) =
           filter (\<lambda>r. netDiff r = k)
             (filter (\<lambda>r. matches_query (toUpperCase (trim (search st))) r \<and>
                          meets_threshold (minDiffPercent st) r) (opportunities st))"
proof
  have "\<forall>r\<in>set (filter (meets_threshold (minDiffPercent st))
           (filter (matches_query (toUpperCase (trim (search st)))) (opportunities st))).
          netDiff r \<noteq> NaN"
    using assms by (simp add: set_filtered)
  then show "descending (filtered st)"
    unfolding filtered_def Let_def by (rule descending_sort_js)
  show "filter (\<lambda>r. netDiff r = k) (filtered st) =
           filter (\<lambda>r. netDiff r = k)
             (filter (\<lambda>r. matches_query (toUpperCase (trim (search st))) r \<and>
                          meets_threshold (minDiffPercent st) r) (opportunities st))"
    by (simp add: filtered_def Let_def stable_sort_js)
qed

theorem filtered_order_witness:
  "map netDiff (filtered sample_state) = [Fin 1.2, Fin 1.2] \<and>
   descending (filtered sample_state) \<and>
   filter (\<lambda>r. netDiff r = Fin 1.2) (filtered sample_state) =
     [sample_record ''BTC'' (Fin 1.2), sample_record ''ETH'' (Fin 1.2)]"
proof -
  have view: "map netDiff (filtered sample_state) = [Fin 1.2, Fin 1.2]"
    by (simp add: sample_defs)
  have "NaN \<notin> set (map netDiff (filtered sample_state))"
    by (simp only: view) simp
  then have h: "\<forall>r\<in>set (filtered sample_state). netDiff r \<noteq> NaN"
    by (metis image_eqI set_map)
  have raw: "filter (\<lambda>r. netDiff r = Fin 1.2)
             (filter (\<lambda>r. matches_query (toUpperCase (trim (search sample_state))) r \<and>
                          meets_threshold (minDiffPercent sample_state) r)
                (opportunities sample_state)) =
     [sample_record ''BTC'' (Fin 1.2), sample_record ''ETH'' (Fin 1.2)]"
    by (simp add: sample_defs)
  show ?thesis
    using view filtered_order [OF h, of "Fin 1.2"] raw by simp
qed

section \<open>Refresh: the request\<close>

lemma gets_append: "gets (xs @ ys) = gets xs @ gets ys"
  by (induction xs rule: gets.induct) simp_all

lemma refresh_request_simps:
  "url (refresh_request toStr st) = strip_trailing_slash (apiBase st) @ ''/api/arbitrage''"
  "params (refresh_request toStr st) = [(''minDiffPercent'', toStr (minDiffPercent st))]"
  by (simp_all add: refresh_request_def)

lemma refresh_settle_Rejected:
  "refresh_settle (Rejected e) st = st\<lparr>error := Some (error_message e), loading := False\<rparr>"
  by (simp add: refresh_settle_def)

lemma refresh_settle_Resolved:
  "refresh_settle (Resolved d) st =
     st\<lparr>opportunities := d, lastUpdated := Some (clock st), loading := False\<rparr>"
  by (simp add: refresh_settle_def)

lemma refresh_issue_alt:
  "refresh_issue toStr st =
     st\<lparr>loading := True, error := None,
        trace := trace st @ [HttpGet (refresh_request toStr st)]\<rparr>"
  by (simp add: refresh_issue_def Let_def refresh_request_def)

lemma requests_refresh_issue:
  "requests (refresh_issue toStr st) = requests st @ [refresh_request toStr st]"
  by (simp add: refresh_issue_alt requests_def gets_append)

text \<open>
  C4 as stated fails: \<open>refresh\<close> builds the query parameters unconditionally. With an
  infinite \<open>minDiffPercent\<close> the threshold filter of the view is inactive (a record with
  \<open>netDiff\<close> 0.3 passes it), and the request still carries \<open>minDiffPercent\<close>.
\<close>

theorem refresh_request_counterexample:
  "\<not> Number_isFinite (minDiffPercent unbounded_state) \<and>
   meets_threshold (minDiffPercent unbounded_state) (sample_record ''LTC'' (Fin 0.3)) \<and>
   map fst (params (last (requests (refresh_issue sample_toStr unbounded_state)))) =
     [''minDiffPercent'']"
  by (simp add: requests_refresh_issue refresh_request_simps unbounded_state_def meets_threshold_def)

text \<open>
  C4, amended. For every parameter state, \<open>refresh\<close> issues exactly one GET request, to the
  API base with one trailing slash removed followed by \<open>/api/arbitrage\<close>, and the request
  always carries \<open>minDiffPercent\<close>, set to the string form of the current threshold, as its
  only query parameter.
\<close>

theorem refresh_request_always_parameter:
  "requests (refresh_issue toStr st) = requests st @ [last (requests (refresh_issue toStr st))] \<and>
   url (last (requests (refresh_issue toStr st))) =
     strip_trailing_slash (apiBase st) @ ''/api/arbitrage'' \<and>
   map_of (params (last (requests (refresh_issue toStr st)))) ''minDiffPercent'' =
     Some (toStr (minDiffPercent st)) \<and>
   map fst (params (last (requests (refresh_issue toStr st)))) = [''minDiffPercent'']"
  by (simp add: requests_refresh_issue refresh_request_simps)

section \<open>Refresh: the outcome\<close>

text \<open>
  C5 as stated fails on the message: the \<open>catch\<close> block stores the message of a thrown
  \<open>Error\<close> as it is, and an \<open>Error\<close> with an empty message leaves the error signal set to
  the empty string.
\<close>

theorem refresh_failure_counterexample:
  "error (refresh sample_toStr (Rejected (ErrorInstance [])) sample_state) = Some []"
  by (simp add: refresh_def refresh_settle_Rejected error_message_def)

text \<open>
  C5, amended. When the fetch inside \<open>refresh\<close> fails, the raw record set and
  \<open>lastUpdated\<close> are left unchanged (by the refresh as a whole and by each of its two
  halves), the error signal is set to a message, which is the message of the thrown \<open>Error\<close>
  or \<open>Failed to fetch data\<close> for any other thrown value and so is empty only when the
  thrown \<open>Error\<close> has an empty message, and \<open>loading\<close> is false afterwards. On success the
  raw record set is replaced by the response, \<open>lastUpdated\<close> is set to the current time,
  and \<open>loading\<close> is false afterwards.
\<close>

theorem refresh_outcome:
  "opportunities (refresh toStr (Rejected e) st) = opportunities st \<and>
   lastUpdated (refresh toStr (Rejected e) st) = lastUpdated st \<and>
   error (refresh toStr (Rejected e) st) = Some (error_message e) \<and>
   (error_message e = []) = (e = ErrorInstance []) \<and>
   loading (refresh toStr (Rejected e) st) = False \<and>
   opportunities (refresh_settle (Rejected e) st) = opportunities st \<and>
   lastUpdated (refresh_settle (Rejected e) st) = lastUpdated st \<and>
   opportunities (refresh_issue toStr st) = opportunities st \<and>
   lastUpdated (refresh_issue toStr st) = lastUpdated st \<and>
   opportunities (refresh toStr (Resolved d) st) = d \<and>
   lastUpdated (refresh toStr (Resolved d) st) = Some (clock st) \<and>
   loading (refresh toStr (Resolved d) st) = False"
  by (cases e) (simp_all add: refresh_def refresh_settle_Rejected refresh_settle_Resolved
      refresh_issue_alt error_message_def)

section \<open>Parameter updates are sanitised\<close>

text \<open>
  C6. \<open>updateAutoInterval\<close> changes \<open>autoRefreshMs\<close> only, and stores the floor of 1000 ms
  when the input converts to NaN and the larger one of 1000 and the converted number
  otherwise (infinity for infinity, the floor for minus infinity), so the stored interval
  is never NaN and never below the floor. \<open>updateMinDiff\<close> changes \<open>minDiffPercent\<close> only,
  and stores zero when the input converts to NaN and the converted number otherwise, so
  it never stores NaN. A number is taken as it is and a string is converted by the runtime.
\<close>

theorem update_parameters:
  "updateAutoInterval toNum (NumberValue n) st =
     st\<lparr>autoRefreshMs :=
          (case n of NaN \<Rightarrow> Fin 1000 | NegInf \<Rightarrow> Fin 1000 | Fin x \<Rightarrow> Fin (max 1000 x)
           | PosInf \<Rightarrow> PosInf)\<rparr> \<and>
   updateAutoInterval toNum (StringValue s) st =
     st\<lparr>autoRefreshMs :=
          (case toNum s of NaN \<Rightarrow> Fin 1000 | NegInf \<Rightarrow> Fin 1000 | Fin x \<Rightarrow> Fin (max 1000 x)
           | PosInf \<Rightarrow> PosInf)\<rparr> \<and>
   updateMinDiff toNum (NumberValue n) st =
     st\<lparr>minDiffPercent := (case n of NaN \<Rightarrow> Fin 0 | NegInf \<Rightarrow> NegInf | Fin x \<Rightarrow> Fin x
                              | PosInf \<Rightarrow> PosInf)\<rparr> \<and>
   updateMinDiff toNum (StringValue s) st =
     st\<lparr>minDiffPercent := (case toNum s of NaN \<Rightarrow> Fin 0 | NegInf \<Rightarrow> NegInf | Fin x \<Rightarrow> Fin x
                              | PosInf \<Rightarrow> PosInf)\<rparr> \<and>
   autoRefreshMs (updateAutoInterval toNum v st) \<noteq> NaN \<and>
   js_ge (autoRefreshMs (updateAutoInterval toNum v st)) (Fin 1000) \<and>
   \<not> js_lt (autoRefreshMs (updateAutoInterval toNum v st)) (Fin 1000) \<and>
   minDiffPercent (updateMinDiff toNum v st) \<noteq> NaN"
proof -
  have interval: "updateAutoInterval toNum w st =
     st\<lparr>autoRefreshMs :=
          (case to_number toNum w of NaN \<Rightarrow> Fin 1000 | NegInf \<Rightarrow> Fin 1000
           | Fin x \<Rightarrow> Fin (max 1000 x) | PosInf \<Rightarrow> PosInf)\<rparr>" for w
    by (cases "to_number toNum w")
      (auto simp: updateAutoInterval_def Let_def MIN_REFRESH_INTERVAL_def max_def)
  have threshold: "updateMinDiff toNum w st =
     st\<lparr>minDiffPercent := (case to_number toNum w of NaN \<Rightarrow> Fin 0 | NegInf \<Rightarrow> NegInf
                              | Fin x \<Rightarrow> Fin x | PosInf \<Rightarrow> PosInf)\<rparr>" for w
    by (cases "to_number toNum w") (simp_all add: updateMinDiff_def Let_def)
  have a: "autoRefreshMs (updateAutoInterval toNum v st) \<noteq> NaN"
    by (simp add: interval split: jsnum.splits)
  have b: "js_ge (autoRefreshMs (updateAutoInterval toNum v st)) (Fin 1000)"
    by (simp add: interval split: jsnum.splits)
  have c: "\<not> js_lt (autoRefreshMs (updateAutoInterval toNum v st)) (Fin 1000)"
    by (simp add: interval split: jsnum.splits)
  have d: "minDiffPercent (updateMinDiff toNum v st) \<noteq> NaN"
    by (simp add: threshold split: jsnum.splits)
  show ?thesis
    using interval [of "NumberValue n"] interval [of "StringValue s"]
      threshold [of "NumberValue n"] threshold [of "StringValue s"] a b c d
    by (simp add: to_number_def)
qed

theorem update_parameters_witness:
  "autoRefreshMs (updateAutoInterval sample_toNum (NumberValue (Fin 5000)) sample_state) = Fin 5000 \<and>
   autoRefreshMs (updateAutoInterval sample_toNum (NumberValue (Fin 250)) sample_state) = Fin 1000 \<and>
   autoRefreshMs (updateAutoInterval sample_toNum (NumberValue NaN) sample_state) = Fin 1000 \<and>
   autoRefreshMs (updateAutoInterval sample_toNum (StringValue ''2500'') sample_state) = Fin 2500 \<and>
   autoRefreshMs (updateAutoInterval sample_toNum (StringValue ''abc'') sample_state) = Fin 1000 \<and>
   autoRefreshMs (updateAutoInterval sample_toNum (StringValue ''Infinity'') sample_state) = PosInf \<and>
   minDiffPercent (updateMinDiff sample_toNum (NumberValue (Fin 2)) sample_state) = Fin 2 \<and>
   minDiffPercent (updateMinDiff sample_toNum (NumberValue NaN) sample_state) = Fin 0 \<and>
   minDiffPercent (updateMinDiff sample_toNum (StringValue ''abc'') sample_state) = Fin 0 \<and>
   minDiffPercent (updateMinDiff sample_toNum (StringValue ''250'') sample_state) = Fin 250 \<and>
   search (updateMinDiff sample_toNum (StringValue ''250'') sample_state) = search sample_state"
  using update_parameters [of sample_toNum "Fin 5000" sample_state "''2500''"]
    update_parameters [of sample_toNum "Fin 250" sample_state "''abc''"]
    update_parameters [of sample_toNum NaN sample_state "''Infinity''"]
    update_parameters [of sample_toNum "Fin 2" sample_state "''250''"]
  by (simp add: sample_toNum_def)

section \<open>Refresh leaves the scheduler alone\<close>

text \<open>
  C9. Neither half of \<open>refresh\<close> touches the timer handle, the live timers or the handle
  counter, whatever the scheduler state; a manual refresh issues exactly one request.
\<close>

theorem refresh_keeps_timer:
  "refreshTimer (refresh_issue toStr st) = refreshTimer st \<and>
   timers (refresh_issue toStr st) = timers st \<and>
   nextHandle (refresh_issue toStr st) = nextHandle st \<and>
   refreshTimer (refresh_settle out st) = refreshTimer st \<and>
   timers (refresh_settle out st) = timers st \<and>
   nextHandle (refresh_settle out st) = nextHandle st \<and>
   refreshTimer (step toNum toStr ManualRefresh st) = refreshTimer st \<and>
   timers (step toNum toStr ManualRefresh st) = timers st \<and>
   length (requests (step toNum toStr ManualRefresh st)) = Suc (length (requests st))"
  by (cases out)
    (simp_all add: refresh_issue_alt refresh_settle_Rejected refresh_settle_Resolved
       requests_def gets_append)

section \<open>The scheduler owns at most one timer\<close>

lemma stopAutoRefresh_alt:
  "stopAutoRefresh st =
     (case refreshTimer st of
        None \<Rightarrow> st
      | Some h \<Rightarrow> if h \<noteq> 0
                  then st\<lparr>timers := filter (\<lambda>(k, t). k \<noteq> h) (timers st),
                          trace := trace st @ [Cancel h], refreshTimer := None\<rparr>
                  else st)"
  by (simp add: stopAutoRefresh_def clearInterval_def split: option.splits)

lemma stopAutoRefresh_frame:
  "error (stopAutoRefresh st) = error st"
  "requests (stopAutoRefresh st) = requests st"
  "nextHandle (stopAutoRefresh st) = nextHandle st"
  "clock (stopAutoRefresh st) = clock st"
  "apiBase (stopAutoRefresh st) = apiBase st"
  "minDiffPercent (stopAutoRefresh st) = minDiffPercent st"
  by (simp_all add: stopAutoRefresh_alt requests_def gets_append split: option.splits)

lemma refresh_request_stop:
  "refresh_request toStr (stopAutoRefresh st) = refresh_request toStr st"
  by (simp add: refresh_request_def stopAutoRefresh_frame)

lemma refresh_in_effect_fields:
  "timers (refresh_in_effect writes toStr st) = timers st"
  "nextHandle (refresh_in_effect writes toStr st) = nextHandle st"
  "clock (refresh_in_effect writes toStr st) = clock st"
  "refreshTimer (refresh_in_effect writes toStr st) = refreshTimer st"
  "error (refresh_in_effect writes toStr st) = (if writes then None else error st)"
  "trace (refresh_in_effect writes toStr st) =
     trace st @ (if writes then [HttpGet (refresh_request toStr st)] else [])"
  by (simp_all add: refresh_in_effect_def refresh_issue_alt)

lemma startAutoRefresh_alt:
  "startAutoRefresh writes toStr ms st =
     (refresh_in_effect writes toStr (stopAutoRefresh st))
       \<lparr>timers := timers (stopAutoRefresh st) @
           [(nextHandle st,
             \<lparr>delay = Math_max MIN_REFRESH_INTERVAL ms, armedAt = clock st,
              nextTick = clock st + timer_delay (Math_max MIN_REFRESH_INTERVAL ms)\<rparr>)],
        nextHandle := Suc (nextHandle st),
        trace := trace (refresh_in_effect writes toStr (stopAutoRefresh st)) @
           [Arm (nextHandle st) (Math_max MIN_REFRESH_INTERVAL ms)],
        refreshTimer := Some (nextHandle st)\<rparr>"
  by (simp add: startAutoRefresh_def setInterval_def Let_def refresh_in_effect_fields
      stopAutoRefresh_frame)

lemma startAutoRefresh_fields:
  "error (startAutoRefresh writes toStr ms st) = (if writes then None else error st)"
  "trace (startAutoRefresh writes toStr ms st) =
     trace (stopAutoRefresh st) @
       (if writes then [HttpGet (refresh_request toStr st)] else []) @
       [Arm (nextHandle st) (Math_max MIN_REFRESH_INTERVAL ms)]"
  "timers (startAutoRefresh writes toStr ms st) = timers (stopAutoRefresh st) @
     [(nextHandle st,
       \<lparr>delay = Math_max MIN_REFRESH_INTERVAL ms, armedAt = clock st,
        nextTick = clock st + timer_delay (Math_max MIN_REFRESH_INTERVAL ms)\<rparr>)]"
  "refreshTimer (startAutoRefresh writes toStr ms st) = Some (nextHandle st)"
  "nextHandle (startAutoRefresh writes toStr ms st) = Suc (nextHandle st)"
  "clock (startAutoRefresh writes toStr ms st) = clock st"
  "apiBase (startAutoRefresh writes toStr ms st) = apiBase st"
  "minDiffPercent (startAutoRefresh writes toStr ms st) = minDiffPercent st"
  by (simp_all add: startAutoRefresh_alt refresh_in_effect_fields refresh_in_effect_def
      refresh_issue_alt stopAutoRefresh_frame refresh_request_stop)


lemma stop_single_timer:
  assumes "single_timer st"
  shows "timers (stopAutoRefresh st) = []" and "refreshTimer (stopAutoRefresh st) = None"
proof -
  show "timers (stopAutoRefresh st) = []"
  proof (cases "refreshTimer st")
    case None
    then show ?thesis using assms by (simp add: single_timer_def stopAutoRefresh_alt)
  next
    case (Some h)
    then have h: "h \<noteq> 0" and one: "map fst (timers st) = [h]"
      using assms by (simp_all add: single_timer_def)
    from one obtain t where "timers st = [(h, t)]"
      by (cases "timers st") auto
    then show ?thesis using Some h by (simp add: stopAutoRefresh_alt)
  qed
  show "refreshTimer (stopAutoRefresh st) = None"
    using assms by (simp add: single_timer_def stopAutoRefresh_alt split: option.splits)
qed

lemma single_timer_stop: "single_timer st \<Longrightarrow> single_timer (stopAutoRefresh st)"
  using stop_single_timer [of st] by (simp add: single_timer_def stopAutoRefresh_frame)

lemma single_timer_start:
  "single_timer st \<Longrightarrow> single_timer (startAutoRefresh writes toStr ms st)"
  using stop_single_timer [of st] by (simp add: single_timer_def startAutoRefresh_fields)

lemma map_fst_rearm: "map fst (rearm h now ts) = map fst ts"
  by (induction ts) (auto simp: rearm_def)

lemma rearm_Nil_iff: "rearm h now ts = [] \<longleftrightarrow> ts = []"
  by (simp add: rearm_def)

lemma single_timer_step: "single_timer st \<Longrightarrow> single_timer (step toNum toStr e st)"
proof (cases e)
  case (RunEffect writes)
  assume "single_timer st"
  then show ?thesis
    using RunEffect by (simp add: auto_refresh_effect_def Let_def single_timer_start single_timer_stop)
next
  case Destroy
  assume "single_timer st"
  then show ?thesis using Destroy by (simp add: onDestroy_def single_timer_stop)
next
  case (Settle out)
  assume "single_timer st"
  then show ?thesis using Settle
    by (cases out)
      (simp_all add: single_timer_def refresh_settle_Rejected refresh_settle_Resolved
         split: option.splits)
next
  case (Tick h)
  assume "single_timer st"
  then show ?thesis using Tick
    by (simp add: single_timer_def refresh_issue_alt map_fst_rearm rearm_Nil_iff
        split: option.splits)
qed (simp_all add: single_timer_def toggleAutoRefresh_def updateMinDiff_def updateAutoInterval_def
      clearSearch_def refresh_issue_alt Let_def split: option.splits)

lemma single_timer_run:
  "single_timer st \<Longrightarrow> single_timer (run toNum toStr evs st)"
  by (induction evs arbitrary: st) (simp_all add: single_timer_step)

lemma single_timer_constructor: "single_timer (constructor_init toStr)"
  by (simp add: constructor_init_def single_timer_def refresh_issue_alt fresh_component_def)

lemma single_timer_length: "single_timer st \<Longrightarrow> length (timers st) \<le> 1"
proof (cases "refreshTimer st")
  case None
  assume "single_timer st"
  then show ?thesis using None by (simp add: single_timer_def)
next
  case (Some h)
  assume "single_timer st"
  then have "map fst (timers st) = [h]" using Some by (simp add: single_timer_def)
  then show ?thesis by (cases "timers st") auto
qed

lemmas step_defs = toggleAutoRefresh_def updateAutoInterval_def updateMinDiff_def to_number_def
  sample_toNum_def auto_refresh_effect_def startAutoRefresh_alt stopAutoRefresh_alt
  refresh_in_effect_def refresh_issue_alt refresh_request_def MIN_REFRESH_INTERVAL_def
  constructor_init_def fresh_component_def onDestroy_def timer_delay_def rearm_def requests_def
  Let_def

lemma running_state_fields:
  "timers running_state = [(2, \<lparr>delay = Fin 2500, armedAt = 700, nextTick = 3200\<rparr>)]"
  "refreshTimer running_state = Some 2"
  "nextHandle running_state = 3"
  "autoRefreshEnabled running_state = True"
  "autoRefreshMs running_state = Fin 2500"
  "clock running_state = 700"
  "length (requests running_state) = 3"
  by (simp_all add: running_state_def sample_events_def step_defs)

text \<open>
  C7. In every state the component reaches from its constructor, by any sequence of
  events, the scheduler has at most one live timer, and it is the one the handle names.
  In such a state \<open>startAutoRefresh\<close> leaves exactly the newly armed timer live,
  \<open>stopAutoRefresh\<close>, a run of the effect with auto-refresh disabled, and the destruction
  of the component leave no timer live and the handle absent, and every event keeps the
  property.
\<close>

theorem scheduler_single_timer:
  "single_timer (run toNum toStr evs (constructor_init toStr)) \<and>
   length (timers (run toNum toStr evs (constructor_init toStr))) \<le> 1 \<and>
   (single_timer st \<longrightarrow>
      length (timers st) \<le> 1 \<and>
      map fst (timers (startAutoRefresh writes toStr ms st)) = [nextHandle st] \<and>
      refreshTimer (startAutoRefresh writes toStr ms st) = Some (nextHandle st) \<and>
      timers (stopAutoRefresh st) = [] \<and> refreshTimer (stopAutoRefresh st) = None \<and>
      (\<not> autoRefreshEnabled st \<longrightarrow>
         timers (auto_refresh_effect writes toStr st) = [] \<and>
         refreshTimer (auto_refresh_effect writes toStr st) = None) \<and>
      timers (onDestroy st) = [] \<and> refreshTimer (onDestroy st) = None \<and>
      single_timer (step toNum toStr e st))"
proof (intro conjI impI)
  show reach: "single_timer (run toNum toStr evs (constructor_init toStr))"
    by (rule single_timer_run [OF single_timer_constructor])
  then show "length (timers (run toNum toStr evs (constructor_init toStr))) \<le> 1"
    by (rule single_timer_length)
next
  assume inv: "single_timer st"
  show "length (timers st) \<le> 1" using inv by (rule single_timer_length)
  show "map fst (timers (startAutoRefresh writes toStr ms st)) = [nextHandle st]"
    using stop_single_timer [OF inv] by (simp add: startAutoRefresh_fields)
  show "refreshTimer (startAutoRefresh writes toStr ms st) = Some (nextHandle st)"
    by (simp add: startAutoRefresh_fields)
  show "timers (stopAutoRefresh st) = []" using inv by (rule stop_single_timer)
  show "refreshTimer (stopAutoRefresh st) = None" using inv by (rule stop_single_timer)
  show "timers (onDestroy st) = []" using stop_single_timer [OF inv] by (simp add: onDestroy_def)
  show "refreshTimer (onDestroy st) = None"
    using stop_single_timer [OF inv] by (simp add: onDestroy_def)
  show "single_timer (step toNum toStr e st)" using inv by (rule single_timer_step)
next
  assume inv: "single_timer st" and off: "\<not> autoRefreshEnabled st"
  show "timers (auto_refresh_effect writes toStr st) = []"
    using stop_single_timer [OF inv] off by (simp add: auto_refresh_effect_def)
  show "refreshTimer (auto_refresh_effect writes toStr st) = None"
    using stop_single_timer [OF inv] off by (simp add: auto_refresh_effect_def)
qed

theorem scheduler_single_timer_witness:
  "single_timer running_state \<and>
   length (timers running_state) \<le> 1 \<and>
   map fst (timers (startAutoRefresh True sample_toStr (Fin 250) running_state)) = [3] \<and>
   timers (stopAutoRefresh running_state) = [] \<and>
   refreshTimer (stopAutoRefresh running_state) = None \<and>
   timers (onDestroy running_state) = [] \<and>
   single_timer (toggleAutoRefresh running_state) \<and>
   \<not> autoRefreshEnabled (toggleAutoRefresh running_state) \<and>
   timers (auto_refresh_effect True sample_toStr (toggleAutoRefresh running_state)) = [] \<and>
   refreshTimer (auto_refresh_effect True sample_toStr (toggleAutoRefresh running_state)) = None"
proof -
  note on = scheduler_single_timer
    [of sample_toNum sample_toStr sample_events running_state True "Fin 250" ToggleAutoRefresh]
  have inv: "single_timer running_state"
    using on by (simp add: running_state_def)
  have inv': "single_timer (toggleAutoRefresh running_state)"
    using on inv by simp
  note off = scheduler_single_timer
    [of sample_toNum sample_toStr sample_events "toggleAutoRefresh running_state" True
      "Fin 250" Destroy]
  have disabled: "\<not> autoRefreshEnabled (toggleAutoRefresh running_state)"
    by (simp add: toggleAutoRefresh_def running_state_fields)
  show ?thesis
    using on off inv inv' disabled by (simp add: running_state_fields)
qed

section \<open>Starting the scheduler\<close>






section \<open>Refresh clears the error\<close>

lemma error_step:
  "\<not> is_failure e \<Longrightarrow> error st = None \<Longrightarrow> error (step toNum toStr e st) = None"
proof (cases e)
  case (Settle out)
  assume "\<not> is_failure e" "error st = None"
  then show ?thesis using Settle by (cases out) (simp_all add: refresh_settle_Resolved)
next
  case (RunEffect writes)
  assume "error st = None"
  then show ?thesis using RunEffect
    by (simp add: auto_refresh_effect_def startAutoRefresh_fields stopAutoRefresh_frame)
next
  case Destroy
  assume "error st = None"
  then show ?thesis using Destroy by (simp add: onDestroy_def stopAutoRefresh_frame)
next
  case (Tick h)
  assume "error st = None"
  then show ?thesis using Tick by (simp add: refresh_issue_alt split: option.splits)
qed (simp_all add: toggleAutoRefresh_def updateMinDiff_def updateAutoInterval_def
      clearSearch_def refresh_issue_alt Let_def)

lemma error_run:
  "\<forall>e\<in>set evs. \<not> is_failure e \<Longrightarrow> error st = None \<Longrightarrow>
   error (run toNum toStr evs st) = None"
  by (induction evs arbitrary: st) (simp_all add: error_step)

text \<open>
  C10 as stated fails when two refreshes overlap: a refresh is pending, a second one starts
  and fails, and then the first one succeeds. The successful refresh leaves the message of
  the failed one in the error signal.
\<close>

theorem refresh_error_counterexample:
  "error (refresh_settle (Resolved [])
            (run sample_toNum sample_toStr overlapping_events
               (refresh_issue sample_toStr sample_state))) =
     Some ''Failed to fetch data''"
  by (simp add: overlapping_events_def refresh_settle_Resolved refresh_settle_Rejected
      refresh_issue_alt error_message_def)

text \<open>
  C10, amended. Every invocation of \<open>refresh\<close> sets the error signal to null before the
  fetch is attempted, and a successful completion leaves the error signal as it is. So a
  refresh that succeeds ends with the error signal null, whatever error an earlier refresh
  had recorded, provided no fetch failure is recorded between its start and its
  completion.
\<close>

theorem refresh_clears_error:
  "error (refresh_issue toStr st) = None \<and>
   error (refresh_settle (Resolved d) st) = error st \<and>
   error (refresh toStr (Resolved d) st) = None \<and>
   ((\<forall>e\<in>set evs. \<not> is_failure e) \<longrightarrow>
      error (refresh_settle (Resolved d) (run toNum toStr evs (refresh_issue toStr st))) = None)"
proof (intro conjI impI)
  show start: "error (refresh_issue toStr st) = None"
    by (simp add: refresh_issue_alt)
  show "error (refresh_settle (Resolved d) st) = error st"
    by (simp add: refresh_settle_Resolved)
  show "error (refresh toStr (Resolved d) st) = None"
    by (simp add: refresh_def refresh_settle_Resolved refresh_issue_alt)
  assume "\<forall>e\<in>set evs. \<not> is_failure e"
  then have "error (run toNum toStr evs (refresh_issue toStr st)) = None"
    using start by (rule error_run)
  then show "error (refresh_settle (Resolved d) (run toNum toStr evs (refresh_issue toStr st))) = None"
    by (simp add: refresh_settle_Resolved)
qed

theorem refresh_clears_error_witness:
  "error stale_state = Some ''Failed to fetch data'' \<and>
   \<not> is_failure ManualRefresh \<and> \<not> is_failure (Settle (Resolved [])) \<and>
   \<not> is_failure (Advance 5) \<and>
   error (refresh sample_toStr (Resolved []) stale_state) = None \<and>
   error (refresh_settle (Resolved [])
            (run sample_toNum sample_toStr [ManualRefresh, Settle (Resolved []), Advance 5]
               (refresh_issue sample_toStr stale_state))) = None"
proof -
  have stale: "error stale_state = Some ''Failed to fetch data''"
    by (simp add: stale_state_def refresh_def refresh_settle_Rejected error_message_def)
  have quiet: "\<forall>e\<in>set [ManualRefresh, Settle (Resolved []), Advance 5]. \<not> is_failure e"
    by simp
  have "error (refresh sample_toStr (Resolved []) stale_state) = None \<and>
     error (refresh_settle (Resolved [])
            (run sample_toNum sample_toStr [ManualRefresh, Settle (Resolved []), Advance 5]
               (refresh_issue sample_toStr stale_state))) = None"
    using quiet
      refresh_clears_error [of sample_toStr stale_state "[]"
        "[ManualRefresh, Settle (Resolved []), Advance 5]" sample_toNum]
    by blast
  then show ?thesis using stale by simp
qed

end
